theory Spec2Isabelle
  imports Main
begin

section \<open>JavaScript strings\<close>

text \<open>
  A JavaScript string is modelled as a \<^typ>\<open>string\<close>, one \<^typ>\<open>char\<close> per code unit.
  The functions of this section that compare and copy code units (\<open>startsWith\<close>,
  \<open>includes\<close>, \<open>split\<close>, \<open>replace\<close> with a string pattern, concatenation) are exact
  for every string. The character classes that \<open>humanize\<close> uses are the ASCII part of
  JavaScript's: text outside ASCII (Unicode white space, letters with a case beyond
  \<open>A-Z\<close>) is outside the model.
\<close>

definition startsWith :: "string \<Rightarrow> string \<Rightarrow> bool" where
  "startsWith s p = (take (length p) s = p)"

text \<open>\<open>indexOf s p\<close>: the position of the first occurrence of \<open>p\<close> in \<open>s\<close>, if any.\<close>

fun indexOf :: "string \<Rightarrow> string \<Rightarrow> nat option" where
  "indexOf [] p = (if p = [] then Some 0 else None)"
| "indexOf (c # cs) p =
     (if startsWith (c # cs) p then Some 0
      else map_option Suc (indexOf cs p))"

definition includes_str :: "string \<Rightarrow> string \<Rightarrow> bool" where
  "includes_str s p = (indexOf s p \<noteq> None)"

text \<open>
  \<open>String.prototype.split\<close> with a string separator: the string is cut at every occurrence
  of the separator, found from left to right, each search starting behind the previous
  occurrence. \<open>split_from sep acc s\<close> carries the piece read so far, reversed. An empty
  separator cuts between all code units.
\<close>

function split_from :: "string \<Rightarrow> string \<Rightarrow> string \<Rightarrow> string list" where
  "split_from sep acc [] = [rev acc]"
| "split_from sep acc (c # cs) =
     (if sep \<noteq> [] \<and> startsWith (c # cs) sep
      then rev acc # split_from sep [] (drop (length sep) (c # cs))
      else split_from sep (c # acc) cs)"
  by pat_completeness auto
termination
  by (relation "measure (\<lambda>(sep, acc, s). length s)") auto

definition split_str :: "string \<Rightarrow> string \<Rightarrow> string list" where
  "split_str s sep = (if sep = [] then map (\<lambda>c. [c]) s else split_from sep [] s)"

text \<open>
  Reading an array element: \<open>undefined\<close> (here \<open>None\<close>) out of range. Where such a value is
  concatenated to a string, JavaScript writes the text \<open>undefined\<close>.
\<close>

definition at_index :: "string list \<Rightarrow> nat \<Rightarrow> string option" where
  "at_index xs i = (if i < length xs then Some (xs ! i) else None)"

definition concat_text :: "string option \<Rightarrow> string" where
  "concat_text v = (case v of None \<Rightarrow> ''undefined'' | Some s \<Rightarrow> s)"

text \<open>
  \<open>String.prototype.replace\<close> with a string pattern and a string replacement: only the
  first occurrence of the pattern is replaced, and the replacement text is expanded first:
  \<open>$$\<close> stands for \<open>$\<close>, \<open>$&\<close> for the matched text, \<open>$\<close> with a backquote for the text
  before the match and \<open>$\<close> with an apostrophe for the text after it. A string pattern
  has no capture groups, so every other \<open>$\<close> is copied.
\<close>

fun expand_replacement :: "string \<Rightarrow> string \<Rightarrow> string \<Rightarrow> string \<Rightarrow> string" where
  "expand_replacement pre matched post [] = []"
| "expand_replacement pre matched post [c] = [c]"
| "expand_replacement pre matched post (c # d # r) =
     (if c = CHR ''$'' \<and> d = CHR ''$'' then CHR ''$'' # expand_replacement pre matched post r
      else if c = CHR ''$'' \<and> d = CHR ''&'' then matched @ expand_replacement pre matched post r
      else if c = CHR ''$'' \<and> d = CHR 0x60 then pre @ expand_replacement pre matched post r
      else if c = CHR ''$'' \<and> d = CHR 0x27 then post @ expand_replacement pre matched post r
      else c # expand_replacement pre matched post (d # r))"

text \<open>A replacement text holds a replacement pattern when \<open>$\<close> is followed by \<open>$\<close>, \<open>&\<close>, a
  backquote or an apostrophe.\<close>

fun has_replacement_pattern :: "string \<Rightarrow> bool" where
  "has_replacement_pattern [] = False"
| "has_replacement_pattern [c] = False"
| "has_replacement_pattern (c # d # r) =
     ((c = CHR ''$'' \<and> (d = CHR ''$'' \<or> d = CHR ''&'' \<or> d = CHR 0x60 \<or> d = CHR 0x27))
      \<or> has_replacement_pattern (d # r))"

definition replace_str :: "string \<Rightarrow> string \<Rightarrow> string \<Rightarrow> string" where
  "replace_str s pat repl =
     (case indexOf s pat of
        None \<Rightarrow> s
      | Some i \<Rightarrow>
          (let pre = take i s; post = drop (i + length pat) s
           in pre @ expand_replacement pre pat post repl @ post))"

text \<open>
  Number to string, for the integers that a JavaScript number holds exactly (magnitude up
  to \<open>2^53\<close>): JavaScript prints those in plain decimal, digit by digit. Larger numbers,
  which JavaScript rounds and from \<open>10^21\<close> on prints with an exponent, are outside the
  model.
\<close>

definition digit_char :: "nat \<Rightarrow> char" where
  "digit_char d = ''0123456789'' ! d"

function show_nat :: "nat \<Rightarrow> string" where
  "show_nat n = (if n < 10 then [digit_char n] else show_nat (n div 10) @ [digit_char (n mod 10)])"
  by pat_completeness auto
termination
  by (relation "measure id") auto

declare show_nat.simps [simp del]

definition show_int :: "int \<Rightarrow> string" where
  "show_int i = (if i < 0 then CHR ''-'' # show_nat (nat (- i)) else show_nat (nat i))"

section \<open>The host of the configured openHAB environment\<close>

text \<open>
  The settings under \<open>openhab\<close> that \<open>getHost\<close> reads. \<open>username\<close> and \<open>password\<close> may be
  unset (\<open>null\<close>, here \<open>None\<close>).
\<close>

record config =
  host :: string
  port :: int
  username :: "string option"
  password :: "string option"

text \<open>Truthiness of an optional string: \<open>null\<close> and the empty string are falsy.\<close>

definition truthy_text :: "string option \<Rightarrow> bool" where
  "truthy_text v = (case v of None \<Rightarrow> False | Some s \<Rightarrow> s \<noteq> [])"

text \<open>
  Lines 52 to 58 of \<open>getHost\<close>: the pair \<open>(protocol, host)\<close> after the optional split of the
  configured host at \<open>://\<close>.
\<close>

definition protocol_host :: "string \<Rightarrow> string option \<times> string option" where
  "protocol_host h =
     (if includes_str h ''://''
      then (let split = split_str h ''://'' in (at_index split 0, at_index split 1))
      else (Some ''http'', Some h))"

text \<open>Lines 60 and 61 of \<open>getHost\<close>: the variable \<open>authentication\<close>.\<close>

definition authentication :: "string option \<Rightarrow> string option \<Rightarrow> string" where
  "authentication user pass =
     (let auth = (if truthy_text user then concat_text user else [])
                 @ (if truthy_text pass then '':'' @ concat_text pass else [])
      in auth @ (if auth \<noteq> [] then ''@'' else []))"

definition getHost :: "config \<Rightarrow> string" where
  "getHost cfg =
     (let (protocol, host') = protocol_host (host cfg)
      in concat_text protocol @ ''://'' @ authentication (username cfg) (password cfg)
         @ concat_text host'
         @ (if port cfg = 80 then [] else '':'' @ show_int (port cfg)))"

section \<open>Opening a URL in the browser\<close>

text \<open>
  Lines 162 and 163 of \<open>openBrowser\<close>, the composition of the URL: \<open>base\<close> is the value of
  \<open>getHost()\<close>, \<open>text\<close> the selected text of the editor.
\<close>

definition buildUrl :: "string \<Rightarrow> string \<Rightarrow> string \<Rightarrow> string" where
  "buildUrl base url text =
     (let url1 = (if startsWith url ''http'' then url else base @ url)
      in replace_str url1 ''%s'' (replace_str text '' '' ''%20''))"

datatype browser_effect = ShowInformationMessage string | OpenUri string

text \<open>\<open>editor_text\<close> is \<open>None\<close> when no editor is active, else the text of its selection.\<close>

definition openBrowser :: "config \<Rightarrow> string option \<Rightarrow> string \<Rightarrow> browser_effect" where
  "openBrowser cfg editor_text url =
     (case editor_text of
        None \<Rightarrow> ShowInformationMessage ''No editor is active''
      | Some text \<Rightarrow> OpenUri (buildUrl (getHost cfg) url text))"

section \<open>Humanize\<close>

text \<open>The character classes of the regular expressions, on ASCII.\<close>

definition is_upper :: "char \<Rightarrow> bool" where
  "is_upper c = (65 \<le> (of_char c :: nat) \<and> (of_char c :: nat) \<le> 90)"

definition is_lower :: "char \<Rightarrow> bool" where
  "is_lower c = (97 \<le> (of_char c :: nat) \<and> (of_char c :: nat) \<le> 122)"

definition is_digit :: "char \<Rightarrow> bool" where
  "is_digit c = (48 \<le> (of_char c :: nat) \<and> (of_char c :: nat) \<le> 57)"

text \<open>White space (\<open>\s\<close>, and what \<open>trim\<close> removes): tab, line feed, vertical tab, form
  feed, carriage return, space.\<close>

definition is_space :: "char \<Rightarrow> bool" where
  "is_space c = ((9 \<le> (of_char c :: nat) \<and> (of_char c :: nat) \<le> 13) \<or> (of_char c :: nat) = 32)"

definition toLower :: "char \<Rightarrow> char" where
  "toLower c = (if is_upper c then char_of ((of_char c :: nat) + 32) else c)"

definition toUpper :: "char \<Rightarrow> char" where
  "toUpper c = (if is_lower c then char_of ((of_char c :: nat) - 32) else c)"

definition toLowerCase :: "string \<Rightarrow> string" where
  "toLowerCase s = map toLower s"

definition trim :: "string \<Rightarrow> string" where
  "trim s = rev (dropWhile is_space (rev (dropWhile is_space s)))"

text \<open>
  \<open>.replace(/([a-z\d])([A-Z]+)/g, '$1_$2')\<close>: a match starts at a lower-case letter or digit
  that is followed by an upper-case letter, and takes the whole run of upper-case letters;
  the search goes on behind the match.
\<close>

function underscore_boundaries :: "string \<Rightarrow> string" where
  "underscore_boundaries [] = []"
| "underscore_boundaries (c # cs) =
     (if (is_lower c \<or> is_digit c) \<and> cs \<noteq> [] \<and> is_upper (hd cs)
      then c # CHR ''_'' # takeWhile is_upper cs @ underscore_boundaries (dropWhile is_upper cs)
      else c # underscore_boundaries cs)"
  by pat_completeness auto
termination
  by (relation "measure length") (auto simp: less_Suc_eq_le length_dropWhile_le)

text \<open>\<open>.replace(/[-\s]+/g, '_')\<close>: every maximal run of hyphens and white space becomes one
  underscore.\<close>

definition is_separator :: "char \<Rightarrow> bool" where
  "is_separator c = (c = CHR ''-'' \<or> is_space c)"

function collapse_separators :: "string \<Rightarrow> string" where
  "collapse_separators [] = []"
| "collapse_separators (c # cs) =
     (if is_separator c then CHR ''_'' # collapse_separators (dropWhile is_separator cs)
      else c # collapse_separators cs)"
  by pat_completeness auto
termination
  by (relation "measure length") (auto simp: less_Suc_eq_le length_dropWhile_le)

definition endsWith :: "string \<Rightarrow> string \<Rightarrow> bool" where
  "endsWith s p = (length p \<le> length s \<and> drop (length s - length p) s = p)"

text \<open>\<open>.replace(/_id$/, '')\<close>: without the \<open>m\<close> flag, \<open>$\<close> is the end of the string.\<close>

definition strip_id :: "string \<Rightarrow> string" where
  "strip_id s = (if endsWith s ''_id'' then take (length s - 3) s else s)"

text \<open>\<open>.replace(/_/g, ' ')\<close>\<close>

definition underscores_to_spaces :: "string \<Rightarrow> string" where
  "underscores_to_spaces s = map (\<lambda>c. if c = CHR ''_'' then CHR '' '' else c) s"

text \<open>\<open>_.upperFirst\<close> of lodash: the first character in upper case, the rest as it is.\<close>

definition upperFirst :: "string \<Rightarrow> string" where
  "upperFirst s = (case s of [] \<Rightarrow> [] | c # cs \<Rightarrow> toUpper c # cs)"

definition humanize :: "string \<Rightarrow> string" where
  "humanize str =
     upperFirst
       (trim
         (underscores_to_spaces
           (strip_id
             (underscores_to_spaces
               (strip_id
                 (underscore_boundaries
                   (toLowerCase
                     (collapse_separators
                       (underscore_boundaries
                         (trim str))))))))))"

text \<open>
  The strings that the idempotence property of \<open>humanize\<close> speaks about: a single leading
  capital letter, then words of lower-case letters and digits, separated by single spaces
  (\<open>words_tail\<close> reads what follows the capital: a space is followed by a character that is
  not a space, and the last character is not a space).
\<close>

fun words_tail :: "string \<Rightarrow> bool" where
  "words_tail [] = True"
| "words_tail [c] = (is_lower c \<or> is_digit c)"
| "words_tail (c # d # r) =
     ((is_lower c \<or> is_digit c \<or> (c = CHR '' '' \<and> d \<noteq> CHR '' '')) \<and> words_tail (d # r))"

definition already_humanized :: "string \<Rightarrow> bool" where
  "already_humanized x = (case x of [] \<Rightarrow> False | c # cs \<Rightarrow> is_upper c \<and> words_tail cs)"

section \<open>JavaScript values\<close>

text \<open>
  The values that \<open>JSON.parse\<close> returns and that a promise is rejected with: \<open>undefined\<close>,
  \<open>null\<close>, booleans, numbers (the integers up to \<open>2^53\<close>), strings, arrays and plain objects
  (the properties in a list, the first entry of a name counts).
\<close>

datatype jsval =
    JUndefined
  | JNull
  | JBool bool
  | JNum int
  | JStr string
  | JArr "jsval list"
  | JObj "(string \<times> jsval) list"

datatype js_error = TypeError | SyntaxError

definition bind_result :: "js_error + 'a \<Rightarrow> ('a \<Rightarrow> js_error + 'b) \<Rightarrow> js_error + 'b" where
  "bind_result r f = (case r of Inl e \<Rightarrow> Inl e | Inr v \<Rightarrow> f v)"

text \<open>
  Reading a property \<open>v.k\<close>, for the names this module reads (\<open>error\<close>, \<open>message\<close>, \<open>type\<close>,
  \<open>name\<close>, \<open>state\<close>, \<open>members\<close>, \<open>autoLinks\<close>): a \<open>TypeError\<close> on \<open>undefined\<close> and \<open>null\<close>,
  the property of an object if it has one, else \<open>undefined\<close> (booleans, numbers, strings
  and arrays have no property of these names).
\<close>

definition lookup :: "(string \<times> jsval) list \<Rightarrow> string \<Rightarrow> jsval" where
  "lookup kvs k = (case map_of kvs k of None \<Rightarrow> JUndefined | Some v \<Rightarrow> v)"

fun get_prop :: "jsval \<Rightarrow> string \<Rightarrow> js_error + jsval" where
  "get_prop JUndefined k = Inl TypeError"
| "get_prop JNull k = Inl TypeError"
| "get_prop (JObj kvs) k = Inr (lookup kvs k)"
| "get_prop v k = Inr JUndefined"

fun truthy :: "jsval \<Rightarrow> bool" where
  "truthy JUndefined = False"
| "truthy JNull = False"
| "truthy (JBool b) = b"
| "truthy (JNum n) = (n \<noteq> 0)"
| "truthy (JStr s) = (s \<noteq> [])"
| "truthy (JArr xs) = True"
| "truthy (JObj kvs) = True"


fun join_comma :: "string list \<Rightarrow> string" where
  "join_comma [] = []"
| "join_comma [x] = x"
| "join_comma (x # y # r) = x @ '','' @ join_comma (y # r)"

text \<open>
  The text of a value in a template literal. An array is its elements joined by commas,
  \<open>undefined\<close> and \<open>null\<close> elements left empty.
\<close>

fun to_string :: "jsval \<Rightarrow> string" where
  "to_string JUndefined = ''undefined''"
| "to_string JNull = ''null''"
| "to_string (JBool b) = (if b then ''true'' else ''false'')"
| "to_string (JNum n) = show_int n"
| "to_string (JStr s) = s"
| "to_string (JArr xs) =
     join_comma (map (\<lambda>x. if x = JUndefined \<or> x = JNull then [] else to_string x) xs)"
| "to_string (JObj kvs) = ''[object Object]''"

section \<open>Requests to the REST API\<close>

text \<open>
  The outcome of \<open>request(url)\<close>: fulfilled with the body of the response, or rejected.
  The functions below take \<open>request\<close> and \<open>JSON.parse\<close> as parameters; \<open>parse\<close> returns
  \<open>None\<close> where \<open>JSON.parse\<close> throws a \<open>SyntaxError\<close>.
\<close>

datatype http_result = Fulfilled string | Failed jsval

text \<open>How the promise that a function returns is settled.\<close>

datatype 'a promise = Resolved 'a | Rejected jsval

text \<open>
  A \<open>MarkdownString\<close> is modelled as the sequence of the calls that built it:
  \<open>appendCodeblock(code, language)\<close>, \<open>appendMarkdown(value)\<close> and \<open>appendText(value)\<close>.
\<close>

datatype block = Codeblock string string | Markdown string | Text string

datatype hover = Hover "block list"

text \<open>The template \<open>Item ${v.name} | ${v.state}\<close>.\<close>

definition item_text :: "jsval \<Rightarrow> js_error + string" where
  "item_text v =
     bind_result (get_prop v ''name'') (\<lambda>name.
     bind_result (get_prop v ''state'') (\<lambda>state.
       Inr (''Item '' @ to_string name @ '' | '' @ to_string state)))"

text \<open>
  The body of \<open>result.members.forEach\<close>, from the member at index \<open>key\<close> on; \<open>len\<close> is the
  length of the array and \<open>resultText\<close> the text built so far.
\<close>

fun members_forEach :: "jsval list \<Rightarrow> nat \<Rightarrow> nat \<Rightarrow> block list \<Rightarrow> js_error + block list" where
  "members_forEach [] key len resultText = Inr resultText"
| "members_forEach (member # rest) key len resultText =
     bind_result (item_text member) (\<lambda>line.
       members_forEach rest (Suc key) len
         (resultText @ [Codeblock line ''openhab'']
            @ (if int len - 1 \<noteq> int key then [Text [CHR 0x0A]] else [])))"

text \<open>Lines 84 to 107: the text of the hover for a parsed item.\<close>

definition formatItem :: "jsval \<Rightarrow> js_error + block list" where
  "formatItem result =
     bind_result (get_prop result ''type'') (\<lambda>type.
       if type = JStr ''Group''
       then bind_result (item_text result) (\<lambda>line.
              bind_result (get_prop result ''members'') (\<lambda>members.
                case members of
                  JArr ms \<Rightarrow>
                    members_forEach ms 0 (length ms)
                      [Codeblock line ''openhab'', Markdown ''##### Members:'']
                | _ \<Rightarrow> Inl TypeError))
       else bind_result (get_prop result ''state'') (\<lambda>state.
              Inr [Codeblock (to_string state) ''openhab'']))"

text \<open>
  Lines 80 to 117: the handler of the response. \<open>None\<close> is \<open>resolve(null)\<close>; an \<open>Inl\<close> is
  an exception thrown in the handler, which \<open>catch\<close> turns into \<open>reject(false)\<close>. The calls
  of \<open>console.log\<close> are left out.
\<close>

definition hover_of_response :: "(string \<Rightarrow> jsval option) \<Rightarrow> string \<Rightarrow> js_error + hover option" where
  "hover_of_response parse response =
     (case parse response of
        None \<Rightarrow> Inl SyntaxError
      | Some result \<Rightarrow>
          bind_result (get_prop result ''error'') (\<lambda>error.
            if \<not> truthy error
            then bind_result (formatItem result) (\<lambda>resultText. Inr (Some (Hover resultText)))
            else Inr None))"

definition getRestHover ::
  "(string \<Rightarrow> http_result) \<Rightarrow> (string \<Rightarrow> jsval option) \<Rightarrow> config \<Rightarrow> string \<Rightarrow> hover option promise" where
  "getRestHover request parse cfg hoveredText =
     (case request (getHost cfg @ ''/rest/items/'' @ hoveredText) of
        Failed err \<Rightarrow> Rejected (JBool False)
      | Fulfilled response \<Rightarrow>
          (case hover_of_response parse response of
             Inl err \<Rightarrow> Rejected (JBool False)
           | Inr h \<Rightarrow> Resolved h))"

definition getSimpleModeState ::
  "(string \<Rightarrow> http_result) \<Rightarrow> (string \<Rightarrow> jsval option) \<Rightarrow> config \<Rightarrow> jsval promise" where
  "getSimpleModeState request parse cfg =
     (case request (getHost cfg @ ''/rest/services/org.eclipse.smarthome.links/config'') of
        Failed err \<Rightarrow> Rejected (JArr [])
      | Fulfilled response \<Rightarrow>
          (case parse response of
             None \<Rightarrow> Rejected (JArr [])
           | Some responseJson \<Rightarrow>
               (case get_prop responseJson ''autoLinks'' of
                  Inl err \<Rightarrow> Rejected (JArr [])
                | Inr autoLinks \<Rightarrow> Resolved autoLinks)))"

definition getSitemaps ::
  "(string \<Rightarrow> http_result) \<Rightarrow> (string \<Rightarrow> jsval option) \<Rightarrow> config \<Rightarrow> jsval promise" where
  "getSitemaps request parse cfg =
     (case request (getHost cfg @ ''/rest/sitemaps'') of
        Failed err \<Rightarrow> Rejected (JArr [])
      | Fulfilled response \<Rightarrow>
          (case parse response of
             None \<Rightarrow> Rejected (JArr [])
           | Some sitemaps \<Rightarrow> Resolved sitemaps))"

section \<open>Presenting a request error\<close>




section \<open>Properties of the string functions\<close>

text \<open>\<open>indexOf\<close> finds an occurrence of the pattern, and the first one.\<close>

lemma indexOf_le: "indexOf s p = Some i \<Longrightarrow> i \<le> length s"
  by (induction s arbitrary: i) (auto split: if_splits)

lemma indexOf_starts: "indexOf s p = Some i \<Longrightarrow> startsWith (drop i s) p"
  by (induction s arbitrary: i) (auto simp: startsWith_def split: if_splits)

lemma indexOf_first: "indexOf s p = Some i \<Longrightarrow> j < i \<Longrightarrow> \<not> startsWith (drop j s) p"
proof (induction s arbitrary: i j)
  case Nil
  then show ?case by (simp split: if_splits)
next
  case (Cons c cs)
  show ?case
  proof (cases "startsWith (c # cs) p")
    case True
    with Cons.prems show ?thesis by simp
  next
    case False
    with Cons.prems obtain k where k: "indexOf cs p = Some k" "i = Suc k" by auto
    show ?thesis
    proof (cases j)
      case 0
      with False show ?thesis by simp
    next
      case (Suc j')
      with Cons.prems(2) k have "j' < k" by simp
      with Cons.IH [OF k(1)] Suc show ?thesis by simp
    qed
  qed
qed

lemma indexOf_None: "indexOf s p = None \<Longrightarrow> j \<le> length s \<Longrightarrow> \<not> startsWith (drop j s) p"
proof (induction s arbitrary: j)
  case Nil
  then show ?case by (simp add: startsWith_def split: if_splits)
next
  case (Cons c cs)
  then show ?case by (cases j) (auto split: if_splits)
qed

text \<open>
  \<open>split_from\<close> on a string without the separator, and on a string with it: the first
  piece ends at the first occurrence, the other pieces are those of the rest.
\<close>

lemma split_from_none:
  "indexOf s sep = None \<Longrightarrow> split_from sep acc s = [rev acc @ s]"
  by (induction s arbitrary: acc) (auto split: if_splits)

lemma split_from_first:
  "sep \<noteq> [] \<Longrightarrow> indexOf s sep = Some i \<Longrightarrow>
   split_from sep acc s = (rev acc @ take i s) # split_from sep [] (drop (i + length sep) s)"
proof (induction s arbitrary: acc i)
  case Nil
  then show ?case by (simp split: if_splits)
next
  case (Cons c cs)
  show ?case
  proof (cases "startsWith (c # cs) sep")
    case True
    with Cons.prems show ?thesis by simp
  next
    case False
    with Cons.prems obtain k where k: "indexOf cs sep = Some k" "i = Suc k" by auto
    from False Cons.IH [OF Cons.prems(1) k(1), of "c # acc"] k(2) show ?thesis by simp
  qed
qed

lemma split_from_scheme:
  assumes "indexOf s ''://'' = Some i"
  shows "split_from ''://'' acc s = (rev acc @ take i s) # split_from ''://'' [] (drop (i + 3) s)"
proof -
  have len: "length ''://'' = 3" by simp
  have "split_from ''://'' acc s =
        (rev acc @ take i s) # split_from ''://'' [] (drop (i + length ''://'') s)"
    using assms by (intro split_from_first) simp_all
  then show ?thesis by (simp only: len)
qed

section \<open>Properties of \<open>getHost\<close>\<close>

text \<open>The scheme and the bare host, by the occurrences of \<open>://\<close> in the configured host.\<close>

lemma protocol_host_plain:
  "\<not> includes_str h ''://'' \<Longrightarrow> protocol_host h = (Some ''http'', Some h)"
  by (simp add: protocol_host_def)

lemma protocol_host_pieces:
  assumes i: "indexOf h ''://'' = Some i"
  shows "protocol_host h =
         (Some (take i h),
          Some (case indexOf (drop (i + 3) h) ''://'' of
                  None \<Rightarrow> drop (i + 3) h
                | Some j \<Rightarrow> take j (drop (i + 3) h)))"
proof -
  let ?rest = "drop (i + 3) h"
  have inc: "includes_str h ''://''"
    using i by (simp add: includes_str_def)
  have sp: "split_str h ''://'' = take i h # split_from ''://'' [] ?rest"
    using split_from_scheme [OF i, of "[]"] by (simp add: split_str_def)
  show ?thesis
  proof (cases "indexOf ?rest ''://''")
    case None
    then have "split_from ''://'' [] ?rest = [?rest]"
      using split_from_none [of ?rest "''://''" "[]"] by simp
    with sp inc None show ?thesis
      by (simp add: protocol_host_def at_index_def)
  next
    case (Some j)
    then have "split_from ''://'' [] ?rest = take j ?rest # split_from ''://'' [] (drop (j + 3) ?rest)"
      using split_from_scheme [of ?rest j "[]"] by simp
    with sp inc Some show ?thesis
      by (simp add: protocol_host_def at_index_def)
  qed
qed

lemma protocol_host_defined: "\<exists>scheme bare. protocol_host h = (Some scheme, Some bare)"
proof (cases "indexOf h ''://''")
  case None
  then show ?thesis by (simp add: protocol_host_def includes_str_def)
next
  case (Some i)
  then show ?thesis by (simp add: protocol_host_pieces)
qed

lemmas getHost_eval =
  getHost_def protocol_host_def includes_str_def startsWith_def split_str_def at_index_def
  concat_text_def authentication_def truthy_text_def show_int_def show_nat.simps digit_char_def

lemma getHost_examples:
  "getHost \<lparr>host = ''myhab.example.com'', port = 8080,
            username = Some ''bob'', password = Some ''pw''\<rparr>
   = ''http://bob:pw@myhab.example.com:8080''"
  "getHost \<lparr>host = ''https://myhab.example.com'', port = 80,
            username = None, password = None\<rparr>
   = ''https://myhab.example.com''"
  by (simp_all add: getHost_eval)

text \<open>
  Claim C1, as the code has it. The authentication prefix of \<open>getHost\<close> starts with the
  user name when that is not empty; it appends \<open>:\<close> and the password whenever the password
  is not empty, also when the user name is empty; and it appends \<open>@\<close> when any of this
  text was produced. The prefix is empty exactly when both the user name and the password
  are empty or unset.
\<close>

theorem authentication_prefix:
  "(un \<noteq> [] \<and> pw \<noteq> [] \<longrightarrow> authentication (Some un) (Some pw) = un @ '':'' @ pw @ ''@'') \<and>
   (un \<noteq> [] \<and> \<not> truthy_text p \<longrightarrow> authentication (Some un) p = un @ ''@'') \<and>
   (\<not> truthy_text u \<and> pw \<noteq> [] \<longrightarrow> authentication u (Some pw) = '':'' @ pw @ ''@'') \<and>
   (authentication u p = [] \<longleftrightarrow> \<not> truthy_text u \<and> \<not> truthy_text p)"
  by (auto simp: authentication_def truthy_text_def concat_text_def Let_def split: option.splits)

theorem authentication_prefix_witness:
  "authentication (Some ''bob'') (Some ''pw'') = ''bob:pw@'' \<and>
   authentication (Some ''bob'') None = ''bob@'' \<and>
   authentication (Some []) (Some ''pw'') = '':pw@'' \<and>
   authentication (Some []) None = []"
  using authentication_prefix [of "''bob''" "''pw''" None "Some []"]
  by (simp add: truthy_text_def)

text \<open>
  The claim C1 as the specification states it fails: with an empty user name and the
  password \<open>pw\<close> the prefix is \<open>:pw@\<close>, not the empty string.
\<close>

theorem authentication_password_only:
  "\<not> truthy_text (Some []) \<and>
   authentication (Some []) (Some ''pw'') = '':pw@'' \<and>
   authentication (Some []) (Some ''pw'') \<noteq> []"
  by (simp add: authentication_def truthy_text_def concat_text_def)

text \<open>
  Claim C4, as the code has it. For a configuration with port 80, no \<open>://\<close> in the host,
  and both the user name and the password empty or unset, \<open>getHost\<close> returns \<open>http://\<close>
  followed by the host. In general the result is the scheme, \<open>://\<close>, the
  authentication prefix, the bare host and the port suffix, where the scheme and the bare
  host are what the split of the host gives, and the port suffix is empty exactly when the
  port is 80 and is \<open>:\<close> followed by the port otherwise.
\<close>

theorem getHost_composition:
  "(port cfg = 80 \<and> \<not> includes_str (host cfg) ''://''
      \<and> \<not> truthy_text (username cfg) \<and> \<not> truthy_text (password cfg)
    \<longrightarrow> getHost cfg = ''http://'' @ host cfg) \<and>
   (\<exists>scheme bare portSuffix.
      protocol_host (host cfg) = (Some scheme, Some bare) \<and>
      getHost cfg
        = scheme @ ''://'' @ authentication (username cfg) (password cfg) @ bare @ portSuffix \<and>
      (portSuffix = [] \<longleftrightarrow> port cfg = 80) \<and>
      (port cfg \<noteq> 80 \<longrightarrow> portSuffix = '':'' @ show_int (port cfg)))"
proof (intro conjI impI)
  assume a: "port cfg = 80 \<and> \<not> includes_str (host cfg) ''://''
      \<and> \<not> truthy_text (username cfg) \<and> \<not> truthy_text (password cfg)"
  then have "authentication (username cfg) (password cfg) = []"
    by (simp add: authentication_def)
  with a show "getHost cfg = ''http://'' @ host cfg"
    by (simp add: getHost_def protocol_host_plain concat_text_def)
next
  obtain scheme bare where sb: "protocol_host (host cfg) = (Some scheme, Some bare)"
    using protocol_host_defined by blast
  let ?suffix = "if port cfg = 80 then [] else '':'' @ show_int (port cfg)"
  have "getHost cfg
        = scheme @ ''://'' @ authentication (username cfg) (password cfg) @ bare @ ?suffix"
    using sb by (simp add: getHost_def concat_text_def)
  moreover have "?suffix = [] \<longleftrightarrow> port cfg = 80" by simp
  moreover have "port cfg \<noteq> 80 \<longrightarrow> ?suffix = '':'' @ show_int (port cfg)" by simp
  ultimately show "\<exists>scheme bare portSuffix.
      protocol_host (host cfg) = (Some scheme, Some bare) \<and>
      getHost cfg
        = scheme @ ''://'' @ authentication (username cfg) (password cfg) @ bare @ portSuffix \<and>
      (portSuffix = [] \<longleftrightarrow> port cfg = 80) \<and>
      (port cfg \<noteq> 80 \<longrightarrow> portSuffix = '':'' @ show_int (port cfg))"
    using sb by blast
qed

theorem getHost_composition_witness:
  "getHost \<lparr>host = ''myhab.example.com'', port = 80, username = None, password = Some []\<rparr>
   = ''http://myhab.example.com''"
  using getHost_composition
    [of "\<lparr>host = ''myhab.example.com'', port = 80, username = None, password = Some []\<rparr>"]
  by (simp add: includes_str_def startsWith_def truthy_text_def)

text \<open>
  The claim C4 as the specification states it fails: with port 80, no \<open>://\<close> in the host
  and an empty user name, a password still gives an authentication segment.
\<close>

theorem getHost_password_only:
  "\<not> includes_str ''h'' ''://'' \<and>
   getHost \<lparr>host = ''h'', port = 80, username = Some [], password = Some ''pw''\<rparr>
     = ''http://:pw@h'' \<and>
   getHost \<lparr>host = ''h'', port = 80, username = Some [], password = Some ''pw''\<rparr>
     \<noteq> ''http://'' @ ''h''"
  by (simp add: getHost_eval)

text \<open>
  Claim C7, as the code has it. For a host without \<open>://\<close> the scheme is \<open>http\<close> and the
  host is used as it is. For a host with \<open>://\<close>, first at position \<open>i\<close>, the scheme is the
  part to the left of that occurrence, and the bare host is the part between it and the
  next occurrence of \<open>://\<close>; it is everything to the right of the first occurrence only
  when \<open>://\<close> does not occur there again.
\<close>

theorem protocol_host_split:
  "(\<not> includes_str h ''://'' \<longrightarrow> protocol_host h = (Some ''http'', Some h)) \<and>
   (\<forall>i. indexOf h ''://'' = Some i \<longrightarrow>
      includes_str h ''://'' \<and>
      protocol_host h =
        (Some (take i h),
         Some (case indexOf (drop (i + 3) h) ''://'' of
                 None \<Rightarrow> drop (i + 3) h
               | Some j \<Rightarrow> take j (drop (i + 3) h))))"
  by (simp add: protocol_host_plain protocol_host_pieces includes_str_def)

theorem protocol_host_split_witness:
  "indexOf ''https://myhab.example.com'' ''://'' = Some 5 \<and>
   protocol_host ''https://myhab.example.com'' = (Some ''https'', Some ''myhab.example.com'') \<and>
   protocol_host ''myhab.example.com'' = (Some ''http'', Some ''myhab.example.com'')"
proof -
  have i: "indexOf ''https://myhab.example.com'' ''://'' = Some 5"
    by (simp add: startsWith_def)
  have n: "\<not> includes_str ''myhab.example.com'' ''://''"
    by (simp add: includes_str_def startsWith_def)
  have r: "indexOf (drop (5 + 3) ''https://myhab.example.com'') ''://'' = None"
    by (simp add: startsWith_def)
  from protocol_host_split [of "''https://myhab.example.com''"] i r
  have "protocol_host ''https://myhab.example.com'' = (Some ''https'', Some ''myhab.example.com'')"
    by simp
  moreover from protocol_host_split [of "''myhab.example.com''"] n
  have "protocol_host ''myhab.example.com'' = (Some ''http'', Some ''myhab.example.com'')"
    by simp
  ultimately show ?thesis using i by simp
qed

text \<open>
  The claim C7 as the specification states it fails: in \<open>a://b://c\<close> the first \<open>://\<close> is
  at position 1 and everything to its right is \<open>b://c\<close>, but the bare host is \<open>b\<close>.
\<close>

theorem protocol_host_second_separator:
  "indexOf ''a://b://c'' ''://'' = Some 1 \<and>
   drop (1 + 3) ''a://b://c'' = ''b://c'' \<and>
   protocol_host ''a://b://c'' = (Some ''a'', Some ''b'') \<and>
   getHost \<lparr>host = ''a://b://c'', port = 80, username = None, password = None\<rparr> = ''a://b''"
  by (simp add: getHost_eval)

section \<open>Properties of \<open>humanize\<close>\<close>

text \<open>The character classes are disjoint; lower case and upper case are inverse on letters.\<close>

lemmas char_class_defs = is_upper_def is_lower_def is_digit_def is_space_def is_separator_def

lemma upper_other:
  "is_upper c \<Longrightarrow> \<not> is_space c \<and> \<not> is_separator c \<and> \<not> is_lower c \<and> c \<noteq> CHR ''_'' \<and> c \<noteq> CHR '' ''"
  by (auto simp: char_class_defs)

lemma word_char_other:
  "is_lower c \<or> is_digit c \<Longrightarrow>
   \<not> is_space c \<and> \<not> is_separator c \<and> \<not> is_upper c \<and> c \<noteq> CHR ''_'' \<and> c \<noteq> CHR '' ''"
  by (auto simp: char_class_defs)

lemma toLower_upper:
  "is_upper c \<Longrightarrow> is_lower (toLower c) \<and> toUpper (toLower c) = c"
  by (simp add: toUpper_def toLower_def is_upper_def is_lower_def)

lemma words_tail_chars:
  "words_tail r \<Longrightarrow> c \<in> set r \<Longrightarrow> is_lower c \<or> is_digit c \<or> c = CHR '' ''"
  by (induction r rule: words_tail.induct) auto

lemma words_tail_last: "words_tail r \<Longrightarrow> r \<noteq> [] \<Longrightarrow> is_lower (last r) \<or> is_digit (last r)"
  by (induction r rule: words_tail.induct) auto

lemma words_tail_no_upper: "words_tail r \<Longrightarrow> c \<in> set r \<Longrightarrow> \<not> is_upper c"
  using words_tail_chars [of r c] word_char_other [of c] by (auto simp: is_upper_def)

lemma words_tail_no_underscore: "words_tail r \<Longrightarrow> CHR ''_'' \<notin> set r"
  using words_tail_chars [of r "CHR ''_''"] by (auto simp: char_class_defs)

text \<open>
  Each step of \<open>humanize\<close> on a string of words: a capital letter \<open>u\<close> followed by a tail
  \<open>r\<close> with \<open>words_tail r\<close>.
\<close>

lemma trim_id:
  assumes "s \<noteq> []" "\<not> is_space (hd s)" "\<not> is_space (last s)"
  shows "trim s = s"
proof -
  have a: "dropWhile is_space s = s"
    using assms(1,2) by (cases s) auto
  have "rev s \<noteq> []" "\<not> is_space (hd (rev s))"
    using assms(1,3) by (simp_all add: hd_rev)
  then have "dropWhile is_space (rev s) = rev s"
    by (cases "rev s") auto
  with a show ?thesis by (simp add: trim_def)
qed

lemma underscore_boundaries_id:
  "\<forall>c \<in> set (tl s). \<not> is_upper c \<Longrightarrow> underscore_boundaries s = s"
proof (induction s)
  case Nil
  then show ?case by simp
next
  case (Cons c cs)
  then have "\<forall>d \<in> set (tl cs). \<not> is_upper d"
    by (cases cs) auto
  with Cons.IH have "underscore_boundaries cs = cs" by simp
  moreover have "\<not> (cs \<noteq> [] \<and> is_upper (hd cs))"
    using Cons.prems by (cases cs) auto
  ultimately show ?case by auto
qed


lemma collapse_words_tail:
  "words_tail r \<Longrightarrow> collapse_separators r = map (\<lambda>c. if c = CHR '' '' then CHR ''_'' else c) r"
proof (induction r rule: words_tail.induct)
  case 1
  then show ?case by simp
next
  case (2 c)
  then show ?case using word_char_other [of c] by auto
next
  case (3 c d r)
  from "3.prems" have wt: "words_tail (d # r)" by simp
  with "3.IH" have ih: "collapse_separators (d # r) = map (\<lambda>c. if c = CHR '' '' then CHR ''_'' else c) (d # r)" by simp
  show ?case
  proof (cases "c = CHR '' ''")
    case True
    with "3.prems" have "d \<noteq> CHR '' ''" by (auto simp: char_class_defs)
    with words_tail_chars [OF wt, of d] word_char_other [of d] have "\<not> is_separator d" by auto
    then have "dropWhile is_separator (d # r) = d # r" by simp
    moreover have "is_separator c" using True by (simp add: char_class_defs)
    ultimately show ?thesis using ih True by simp
  next
    case False
    with "3.prems" have "is_lower c \<or> is_digit c" by auto
    with word_char_other [of c] have "\<not> is_separator c" by auto
    with ih False show ?thesis by simp
  qed
qed

lemma endsWith_rev: "endsWith s p \<longleftrightarrow> take (length p) (rev s) = rev p"
proof
  assume "endsWith s p"
  then show "take (length p) (rev s) = rev p"
    by (simp add: endsWith_def take_rev)
next
  assume a: "take (length p) (rev s) = rev p"
  then have d: "drop (length s - length p) s = p"
    by (simp add: take_rev)
  then have "length p = length s - (length s - length p)"
    by (metis length_drop)
  then have "length p \<le> length s" by arith
  with d show "endsWith s p" by (simp add: endsWith_def)
qed

lemma endsWith_set: "endsWith s p \<Longrightarrow> set p \<subseteq> set s"
  by (metis endsWith_def set_drop_subset)

lemma strip_id_words:
  assumes u: "is_upper u" and wt: "words_tail r" and ne: "\<not> endsWith (u # r) '' id''"
  shows "\<not> endsWith (toLower u # map (\<lambda>c. if c = CHR '' '' then CHR ''_'' else c) r) ''_id''"
proof
  let ?f = "\<lambda>c. if c = CHR '' '' then CHR ''_'' else c"
  assume "endsWith (toLower u # map ?f r) ''_id''"
  then have t: "take 3 (map ?f (rev r) @ [toLower u]) = ''di_''"
    by (simp add: endsWith_rev rev_map numeral_3_eq_3)
  have l: "toLower u \<noteq> CHR ''_''"
    using toLower_upper [OF u] by (auto simp: is_lower_def)
  have "take 3 (rev r @ [u]) = ''di ''"
  proof (cases "rev r")
    case Nil
    with t show ?thesis by simp
  next
    case c1: (Cons a q1)
    show ?thesis
    proof (cases q1)
      case Nil
      with t c1 show ?thesis by simp
    next
      case c2: (Cons b q2)
      show ?thesis
      proof (cases q2)
        case Nil
        with t c1 c2 l show ?thesis by simp
      next
        case c3: (Cons c q3)
        have "c \<in> set r"
          using c1 c2 c3 by (metis list.set_intros(1,2) set_rev)
        then have "c \<noteq> CHR ''_''"
          using words_tail_no_underscore [OF wt] by auto
        with t c1 c2 c3 show ?thesis
          by (auto split: if_splits)
      qed
    qed
  qed
  then have "endsWith (u # r) '' id''"
    by (simp add: endsWith_rev numeral_3_eq_3)
  with ne show False by simp
qed

lemma no_underscore_strip_id: "CHR ''_'' \<notin> set s \<Longrightarrow> strip_id s = s"
  using endsWith_set [of s "''_id''"] by (auto simp: strip_id_def)

lemma no_underscore_to_spaces: "CHR ''_'' \<notin> set s \<Longrightarrow> underscores_to_spaces s = s"
  by (induction s) (auto simp: underscores_to_spaces_def)

lemma to_spaces_words:
  "CHR ''_'' \<notin> set r \<Longrightarrow>
   underscores_to_spaces (map (\<lambda>c. if c = CHR '' '' then CHR ''_'' else c) r) = r"
  by (induction r) (auto simp: underscores_to_spaces_def)

lemma toLowerCase_words:
  "words_tail r \<Longrightarrow>
   toLowerCase (map (\<lambda>c. if c = CHR '' '' then CHR ''_'' else c) r)
   = map (\<lambda>c. if c = CHR '' '' then CHR ''_'' else c) r"
proof -
  assume wt: "words_tail r"
  have "toLower (if c = CHR '' '' then CHR ''_'' else c) = (if c = CHR '' '' then CHR ''_'' else c)"
    if "c \<in> set r" for c
    using words_tail_no_upper [OF wt that] by (auto simp: toLower_def is_upper_def)
  then show ?thesis by (simp add: toLowerCase_def)
qed

lemma humanize_fixed:
  assumes u: "is_upper u" and wt: "words_tail r" and ne: "\<not> endsWith (u # r) '' id''"
  shows "humanize (u # r) = u # r"
proof -
  let ?f = "\<lambda>c. if c = CHR '' '' then CHR ''_'' else c"
  let ?l = "toLower u"
  have l: "is_lower ?l" "toUpper ?l = u"
    using toLower_upper [OF u] by simp_all
  have lo: "\<not> is_space ?l" "\<not> is_upper ?l" "?l \<noteq> CHR ''_''"
    using word_char_other [of ?l] l(1) by simp_all
  have last_ok: "\<not> is_space (last (c # r))" if "\<not> is_space c" for c
    using words_tail_last [OF wt] word_char_other [of "last r"] that by (cases "r = []") auto
  have nu: "CHR ''_'' \<notin> set r"
    by (rule words_tail_no_underscore [OF wt])
  have s1: "trim (u # r) = u # r"
    using upper_other [OF u] last_ok [of u] by (intro trim_id) simp_all
  have s2: "underscore_boundaries (u # r) = u # r"
    using words_tail_no_upper [OF wt] by (intro underscore_boundaries_id) simp
  have s3: "collapse_separators (u # r) = u # map ?f r"
    using upper_other [OF u] collapse_words_tail [OF wt] by simp
  have s4: "toLowerCase (u # map ?f r) = ?l # map ?f r"
    using toLowerCase_words [OF wt] by (simp add: toLowerCase_def)
  have s5: "underscore_boundaries (?l # map ?f r) = ?l # map ?f r"
  proof (intro underscore_boundaries_id ballI)
    fix c assume "c \<in> set (tl (?l # map ?f r))"
    then obtain d where d: "d \<in> set r" "c = ?f d" by auto
    with words_tail_no_upper [OF wt d(1)] show "\<not> is_upper c"
      by (auto simp: is_upper_def)
  qed
  have s6: "strip_id (?l # map ?f r) = ?l # map ?f r"
    using strip_id_words [OF u wt ne] by (simp add: strip_id_def)
  have s7: "underscores_to_spaces (?l # map ?f r) = ?l # r"
    using to_spaces_words [OF nu] lo(3) by (simp add: underscores_to_spaces_def)
  have nu': "CHR ''_'' \<notin> set (?l # r)"
    using nu lo(3) by auto
  have s8: "strip_id (?l # r) = ?l # r" "underscores_to_spaces (?l # r) = ?l # r"
    using nu' by (rule no_underscore_strip_id, rule no_underscore_to_spaces)
  have s9: "trim (?l # r) = ?l # r"
    using lo(1) last_ok [of ?l] by (intro trim_id) simp_all
  have s10: "upperFirst (?l # r) = u # r"
    using l(2) by (simp add: upperFirst_def)
  show ?thesis
    unfolding humanize_def by (simp only: s1 s2 s3 s4 s5 s6 s7 s8 s9 s10)
qed

lemmas humanize_eval =
  humanize_def upperFirst_def trim_def underscores_to_spaces_def strip_id_def endsWith_def
  toLowerCase_def toLower_def toUpper_def char_of_def bit_0 char_class_defs

text \<open>
  Claim C3. The pipeline of \<open>humanize\<close>, applied in the order of the source, turns
  \<open>some_item_id\<close> into \<open>Some item\<close> and \<open>someCamelCaseName\<close> into \<open>Some camel case name\<close>,
  and returns the empty string for the empty string.
\<close>

theorem humanize_examples:
  "humanize ''some_item_id'' = ''Some item'' \<and>
   humanize ''someCamelCaseName'' = ''Some camel case name'' \<and>
   humanize [] = []"
  by (simp add: humanize_eval)

theorem humanize_examples_witness:
  "length (humanize ''some_item_id'') = 9 \<and> humanize [] = []"
  using humanize_examples by simp

text \<open>
  Claim C6, as the code has it. For every string \<open>x\<close> made of a single leading capital
  letter followed by words of lower-case letters and digits that are separated by single
  spaces, and that does not end in a space followed by \<open>id\<close>, \<open>humanize x = x\<close>, and so
  \<open>humanize (humanize x) = x\<close>.
\<close>

theorem humanize_fixed_on_words:
  assumes "already_humanized x" and "\<not> endsWith x '' id''"
  shows "humanize x = x \<and> humanize (humanize x) = x"
proof -
  from assms(1) obtain u r where x: "x = u # r" "is_upper u" "words_tail r"
    by (auto simp: already_humanized_def split: list.splits)
  with assms(2) have "humanize x = x"
    by (simp add: humanize_fixed)
  then show ?thesis by simp
qed

theorem humanize_fixed_on_words_witness:
  "already_humanized ''Some item'' \<and> \<not> endsWith ''Some item'' '' id'' \<and>
   humanize ''Some item'' = ''Some item'' \<and> humanize (humanize ''Some item'') = ''Some item''"
proof -
  have a: "already_humanized ''Some item''"
    by (simp add: already_humanized_def char_class_defs)
  have b: "\<not> endsWith ''Some item'' '' id''"
    by (simp add: endsWith_def)
  from humanize_fixed_on_words [OF a b] a b show ?thesis by simp
qed

text \<open>
  The claim C6 as the specification states it fails. \<open>Some id\<close> has a single leading
  capital and space-separated words and does not end in \<open>_id\<close>, but its last word is
  stripped: \<open>humanize\<close> returns \<open>Some\<close>. Nor is \<open>humanize\<close> the identity on its own image:
  \<open>humanize\<close> of \<open>a_id_id\<close> is \<open>A id\<close>, and \<open>humanize\<close> of that is \<open>A\<close>.
\<close>

theorem humanize_not_idempotent:
  "already_humanized ''Some id'' \<and> \<not> endsWith ''Some id'' ''_id'' \<and>
   humanize ''Some id'' = ''Some'' \<and> humanize (humanize ''Some id'') = ''Some'' \<and>
   humanize ''a_id_id'' = ''A id'' \<and> humanize (humanize ''a_id_id'') = ''A''"
  by (simp add: already_humanized_def humanize_eval)

section \<open>Properties of the URL composition\<close>

text \<open>
  A replacement text without a replacement pattern is inserted as it is, and the
  replacement of the first space by \<open>%20\<close> makes no pattern.
\<close>

lemma expand_plain:
  "\<not> has_replacement_pattern r \<Longrightarrow> expand_replacement pre m post r = r"
  by (induction pre m post r rule: expand_replacement.induct) auto

lemma has_pattern_skip:
  "c \<noteq> CHR ''$'' \<Longrightarrow> has_replacement_pattern (c # cs) = has_replacement_pattern cs"
  by (cases cs) auto

lemma replace_space_Nil: "replace_str [] '' '' ''%20'' = []"
  by (simp add: replace_str_def)

lemma replace_space_Cons:
  "replace_str (c # cs) '' '' ''%20''
   = (if c = CHR '' '' then ''%20'' @ cs else c # replace_str cs '' '' ''%20'')"
  by (auto simp: replace_str_def startsWith_def split: option.splits)

lemma replace_space_keeps_plain:
  "\<not> has_replacement_pattern t \<Longrightarrow> \<not> has_replacement_pattern (replace_str t '' '' ''%20'')"
proof (induction t rule: has_replacement_pattern.induct)
  case 1
  then show ?case by (simp add: replace_space_Nil)
next
  case (2 c)
  then show ?case by (simp add: replace_space_Cons replace_space_Nil)
next
  case (3 c d r)
  from "3.prems" have tail: "\<not> has_replacement_pattern (d # r)" by simp
  with "3.IH" have ih: "\<not> has_replacement_pattern (replace_str (d # r) '' '' ''%20'')" by simp
  show ?case
  proof (cases "c = CHR ''$''")
    case False
    with tail ih show ?thesis
      by (simp add: replace_space_Cons [of c] has_pattern_skip del: has_replacement_pattern.simps)
  next
    case True
    with "3.prems" have d: "d \<noteq> CHR ''$''" "d \<noteq> CHR ''&''" "d \<noteq> CHR 0x60" "d \<noteq> CHR 0x27"
      by auto
    show ?thesis
    proof (cases "d = CHR '' ''")
      case sp: True
      from tail sp have "\<not> has_replacement_pattern r" by (simp add: has_pattern_skip)
      with True sp show ?thesis
        by (simp add: replace_space_Cons has_pattern_skip)
    next
      case nsp: False
      from ih nsp have "\<not> has_replacement_pattern (d # replace_str r '' '' ''%20'')"
        by (simp add: replace_space_Cons)
      with True nsp d show ?thesis
        by (simp add: replace_space_Cons)
    qed
  qed
qed

lemma replace_str_plain:
  "\<not> has_replacement_pattern r \<Longrightarrow>
   replace_str s pat r
   = (case indexOf s pat of None \<Rightarrow> s | Some i \<Rightarrow> take i s @ r @ drop (i + length pat) s)"
  by (simp add: replace_str_def expand_plain split: option.splits)

text \<open>
  Where the composition inserts the selected text as it is. The URL is \<open>url\<close> itself when it
  begins with \<open>http\<close> and \<open>base\<close> followed by \<open>url\<close> otherwise. When the selected text holds
  no replacement pattern (\<open>$\<close> followed by \<open>$\<close>, \<open>&\<close>, a backquote or an apostrophe), the
  first occurrence of \<open>%s\<close> in that URL is replaced by the text in which only the first
  space has become \<open>%20\<close>; a URL without \<open>%s\<close> stays as it is. The example of the
  specification is such a text.
\<close>

lemma buildUrl_substitution:
  "(\<not> has_replacement_pattern text \<longrightarrow>
      buildUrl base url text =
        (let u = (if startsWith url ''http'' then url else base @ url);
             fragment = (case indexOf text '' '' of
                           None \<Rightarrow> text
                         | Some j \<Rightarrow> take j text @ ''%20'' @ drop (j + 1) text)
         in case indexOf u ''%s'' of
              None \<Rightarrow> u
            | Some i \<Rightarrow> take i u @ fragment @ drop (i + 2) u)) \<and>
   buildUrl ''http://h:8080'' ''/basicui/app?%s'' ''my item'' = ''http://h:8080/basicui/app?my%20item''"
proof (intro conjI impI)
  assume plain: "\<not> has_replacement_pattern text"
  let ?u = "if startsWith url ''http'' then url else base @ url"
  let ?fragment = "replace_str text '' '' ''%20''"
  have f: "?fragment = (case indexOf text '' '' of
                           None \<Rightarrow> text
                         | Some j \<Rightarrow> take j text @ ''%20'' @ drop (j + 1) text)"
    by (simp add: replace_str_plain split: option.splits)
  have "replace_str ?u ''%s'' ?fragment
        = (case indexOf ?u ''%s'' of None \<Rightarrow> ?u | Some i \<Rightarrow> take i ?u @ ?fragment @ drop (i + 2) ?u)"
    using replace_space_keeps_plain [OF plain] replace_str_plain [of ?fragment ?u "''%s''"]
    by (simp split: option.splits)
  then show "buildUrl base url text =
        (let u = (if startsWith url ''http'' then url else base @ url);
             fragment = (case indexOf text '' '' of
                           None \<Rightarrow> text
                         | Some j \<Rightarrow> take j text @ ''%20'' @ drop (j + 1) text)
         in case indexOf u ''%s'' of
              None \<Rightarrow> u
            | Some i \<Rightarrow> take i u @ fragment @ drop (i + 2) u)"
    unfolding buildUrl_def Let_def f [symmetric] by simp
next
  show "buildUrl ''http://h:8080'' ''/basicui/app?%s'' ''my item'' = ''http://h:8080/basicui/app?my%20item''"
    by (simp add: buildUrl_def replace_str_def startsWith_def)
qed

lemma buildUrl_substitution_examples:
  "\<not> has_replacement_pattern ''a b c'' \<and>
   buildUrl ''http://h'' ''/x?q=%s&r=%s'' ''a b c'' = ''http://h/x?q=a%20b c&r=%s'' \<and>
   buildUrl ''http://h'' ''https://other/%s'' ''a b c'' = ''https://other/a%20b c''"
proof -
  have p: "\<not> has_replacement_pattern ''a b c''" by simp
  from buildUrl_substitution [of "''a b c''" "''http://h''" "''/x?q=%s&r=%s''"] p
  have "buildUrl ''http://h'' ''/x?q=%s&r=%s'' ''a b c'' = ''http://h/x?q=a%20b c&r=%s''"
    by (simp add: startsWith_def)
  moreover from buildUrl_substitution [of "''a b c''" "''http://h''" "''https://other/%s''"] p
  have "buildUrl ''http://h'' ''https://other/%s'' ''a b c'' = ''https://other/a%20b c''"
    by (simp add: startsWith_def)
  ultimately show ?thesis using p by simp
qed

text \<open>
  Claim C5: the composition is to put the selected text, with its first space replaced by
  \<open>%20\<close>, in the place of \<open>%s\<close>. The code passes the text to \<open>String.prototype.replace\<close>
  as the replacement, where it is read as a replacement pattern, and so misses the claim
  on a text with such a pattern: for the selected text \<open>$$\<close> a single \<open>$\<close> is inserted, and
  for the selected text \<open>$&\<close> the matched \<open>%s\<close> is put back, so that the URL keeps its
  \<open>%s\<close>. The two values below are what the code returns there.
\<close>

theorem buildUrl_dollar_pattern:
  "buildUrl ''http://h:8080'' ''/basicui/app?%s'' ''$$'' = ''http://h:8080/basicui/app?$'' \<and>
   buildUrl ''http://h:8080'' ''/basicui/app?%s'' ''$&'' = ''http://h:8080/basicui/app?%s''"
  by (simp add: buildUrl_def replace_str_def startsWith_def)

section \<open>Properties of the hover text\<close>

text \<open>The loop over the members, when all of them are objects.\<close>

lemma item_text_object:
  "item_text (JObj m)
   = Inr (''Item '' @ to_string (lookup m ''name'') @ '' | '' @ to_string (lookup m ''state''))"
  by (simp add: item_text_def bind_result_def)

lemma members_forEach_objects:
  assumes "key + length ms = len"
  shows "members_forEach (map JObj ms) key len acc
         = Inr (acc
                @ concat (map (\<lambda>m. [Codeblock (''Item '' @ to_string (lookup m ''name'') @ '' | ''
                                                  @ to_string (lookup m ''state'')) ''openhab'',
                                     Text [CHR 0x0A]]) (butlast ms))
                @ (if ms = [] then []
                   else [Codeblock (''Item '' @ to_string (lookup (last ms) ''name'') @ '' | ''
                                      @ to_string (lookup (last ms) ''state'')) ''openhab'']))"
  using assms
proof (induction ms arbitrary: key acc)
  case Nil
  then show ?case by simp
next
  case (Cons m rest)
  from Cons.prems have k: "Suc key + length rest = len" by simp
  show ?case
  proof (cases "rest = []")
    case True
    with Cons.prems have "int len - 1 = int key" by simp
    with True show ?thesis
      by (simp add: item_text_object bind_result_def)
  next
    case False
    with Cons.prems have "int len - 1 \<noteq> int key" by auto
    with False Cons.IH [OF k] show ?thesis
      by (simp add: item_text_object bind_result_def)
  qed
qed

text \<open>
  Claim C2. For an item of type \<open>Group\<close> with a non-empty array of members,
  \<open>formatItem\<close> gives one code block \<open>Item name | state\<close> for the group, the heading
  \<open>Members:\<close>, and one code block \<open>Item name | state\<close> for every member in the order of
  the array, with a line break after every member block but the last. On the example
  of the specification these are four blocks (the code block of the group, the heading,
  the code blocks of the members A and B) and a single line break, between the two member
  blocks.
\<close>

theorem formatItem_group:
  "(lookup item ''type'' = JStr ''Group'' \<and> lookup item ''members'' = JArr (map JObj ms) \<and> ms \<noteq> []
    \<longrightarrow> formatItem (JObj item)
        = Inr ([Codeblock (''Item '' @ to_string (lookup item ''name'') @ '' | ''
                             @ to_string (lookup item ''state'')) ''openhab'',
                Markdown ''##### Members:'']
               @ concat (map (\<lambda>m. [Codeblock (''Item '' @ to_string (lookup m ''name'') @ '' | ''
                                                 @ to_string (lookup m ''state'')) ''openhab'',
                                    Text [CHR 0x0A]]) (butlast ms))
               @ [Codeblock (''Item '' @ to_string (lookup (last ms) ''name'') @ '' | ''
                               @ to_string (lookup (last ms) ''state'')) ''openhab''])) \<and>
   formatItem (JObj [(''type'', JStr ''Group''), (''name'', JStr ''G''), (''state'', JStr ''ON''),
                     (''members'', JArr [JObj [(''name'', JStr ''A''), (''state'', JStr ''ON'')],
                                         JObj [(''name'', JStr ''B''), (''state'', JStr ''OFF'')]])])
   = Inr [Codeblock ''Item G | ON'' ''openhab'',
          Markdown ''##### Members:'',
          Codeblock ''Item A | ON'' ''openhab'',
          Text [CHR 0x0A],
          Codeblock ''Item B | OFF'' ''openhab'']"
proof (intro conjI impI)
  assume a: "lookup item ''type'' = JStr ''Group'' \<and> lookup item ''members'' = JArr (map JObj ms) \<and> ms \<noteq> []"
  then show "formatItem (JObj item)
        = Inr ([Codeblock (''Item '' @ to_string (lookup item ''name'') @ '' | ''
                             @ to_string (lookup item ''state'')) ''openhab'',
                Markdown ''##### Members:'']
               @ concat (map (\<lambda>m. [Codeblock (''Item '' @ to_string (lookup m ''name'') @ '' | ''
                                                 @ to_string (lookup m ''state'')) ''openhab'',
                                    Text [CHR 0x0A]]) (butlast ms))
               @ [Codeblock (''Item '' @ to_string (lookup (last ms) ''name'') @ '' | ''
                               @ to_string (lookup (last ms) ''state'')) ''openhab''])"
    by (simp add: formatItem_def bind_result_def item_text_object members_forEach_objects)
next
  show "formatItem (JObj [(''type'', JStr ''Group''), (''name'', JStr ''G''), (''state'', JStr ''ON''),
                     (''members'', JArr [JObj [(''name'', JStr ''A''), (''state'', JStr ''ON'')],
                                         JObj [(''name'', JStr ''B''), (''state'', JStr ''OFF'')]])])
   = Inr [Codeblock ''Item G | ON'' ''openhab'',
          Markdown ''##### Members:'',
          Codeblock ''Item A | ON'' ''openhab'',
          Text [CHR 0x0A],
          Codeblock ''Item B | OFF'' ''openhab'']"
    by (simp add: formatItem_def bind_result_def item_text_def lookup_def)
qed

theorem formatItem_group_witness:
  "formatItem (JObj [(''type'', JStr ''Group''), (''name'', JStr ''Lights''), (''state'', JStr ''ON''),
                     (''members'', JArr (map JObj
                        [[(''name'', JStr ''A''), (''state'', JStr ''ON'')],
                         [(''name'', JStr ''B''), (''state'', JStr ''OFF'')],
                         [(''name'', JStr ''C''), (''state'', JNum 0)]]))])
   = Inr [Codeblock ''Item Lights | ON'' ''openhab'',
          Markdown ''##### Members:'',
          Codeblock ''Item A | ON'' ''openhab'',
          Text [CHR 0x0A],
          Codeblock ''Item B | OFF'' ''openhab'',
          Text [CHR 0x0A],
          Codeblock ''Item C | 0'' ''openhab'']"
  using formatItem_group
    [of "[(''type'', JStr ''Group''), (''name'', JStr ''Lights''), (''state'', JStr ''ON''),
          (''members'', JArr (map JObj
                        [[(''name'', JStr ''A''), (''state'', JStr ''ON'')],
                         [(''name'', JStr ''B''), (''state'', JStr ''OFF'')],
                         [(''name'', JStr ''C''), (''state'', JNum 0)]]))]"
        "[[(''name'', JStr ''A''), (''state'', JStr ''ON'')],
          [(''name'', JStr ''B''), (''state'', JStr ''OFF'')],
          [(''name'', JStr ''C''), (''state'', JNum 0)]]"]
  by (simp add: lookup_def show_int_def show_nat.simps digit_char_def)

section \<open>Properties of the requests and of the error presentation\<close>

text \<open>
  Claim C8, as the code has it. When the request is fulfilled and the parsed response has
  a truthy \<open>error\<close> property (any value but \<open>undefined\<close>, \<open>null\<close>, \<open>false\<close>, \<open>0\<close> and the
  empty string), the text of the hover is not built, whatever else the response holds,
  and the promise is resolved with \<open>null\<close>; it is not rejected, as it is after a failure
  of the request or of the formatting.
\<close>

theorem getRestHover_not_found:
  assumes "request (getHost cfg @ ''/rest/items/'' @ hoveredText) = Fulfilled response"
    and "parse response = Some result"
    and "get_prop result ''error'' = Inr error"
    and "truthy error"
  shows "hover_of_response parse response = Inr None \<and>
         getRestHover request parse cfg hoveredText = Resolved None \<and>
         getRestHover request parse cfg hoveredText \<noteq> Rejected (JBool False)"
  using assms by (simp add: getRestHover_def hover_of_response_def bind_result_def)

theorem getRestHover_not_found_witness:
  "getRestHover (\<lambda>url. Fulfilled ''{}'')
     (\<lambda>body. Some (JObj [(''error'', JObj [(''message'', JStr ''Item X does not exist!'')])]))
     \<lparr>host = ''localhost'', port = 8080, username = None, password = None\<rparr> ''X''
   = Resolved None"
  using getRestHover_not_found
    [of "\<lambda>url. Fulfilled ''{}''"
        "\<lparr>host = ''localhost'', port = 8080, username = None, password = None\<rparr>" "''X''" "''{}''"
        "\<lambda>body. Some (JObj [(''error'', JObj [(''message'', JStr ''Item X does not exist!'')])])"
        "JObj [(''error'', JObj [(''message'', JStr ''Item X does not exist!'')])]"
        "JObj [(''message'', JStr ''Item X does not exist!'')]"]
  by (simp add: lookup_def)

text \<open>
  The claim C8 as the specification states it fails: a response that carries an \<open>error\<close>
  property with the empty string as its value is formatted like an item.
\<close>

theorem getRestHover_empty_error:
  "get_prop (JObj [(''error'', JStr []), (''state'', JStr ''ON'')]) ''error'' = Inr (JStr []) \<and>
   getRestHover (\<lambda>url. Fulfilled ''{}'')
     (\<lambda>body. Some (JObj [(''error'', JStr []), (''state'', JStr ''ON'')]))
     \<lparr>host = ''localhost'', port = 80, username = None, password = None\<rparr> ''X''
   = Resolved (Some (Hover [Codeblock ''ON'' ''openhab'']))"
  by (simp add: getRestHover_def hover_of_response_def bind_result_def formatItem_def lookup_def)

text \<open>
  Claim C9, as the code has it. When the request is rejected, whatever the error is, the
  promise that the operation returns is rejected too, with a fixed value in the place of
  the error: \<open>false\<close> for \<open>getRestHover\<close>, the empty array for \<open>getSimpleModeState\<close> and for
  \<open>getSitemaps\<close>. The promise is not resolved, and none of the three values is \<open>null\<close>.
\<close>

theorem rejected_request_sentinel:
  "(request (getHost cfg @ ''/rest/items/'' @ hoveredText) = Failed err
      \<longrightarrow> getRestHover request parse cfg hoveredText = Rejected (JBool False)) \<and>
   (request (getHost cfg @ ''/rest/services/org.eclipse.smarthome.links/config'') = Failed err
      \<longrightarrow> getSimpleModeState request parse cfg = Rejected (JArr [])) \<and>
   (request (getHost cfg @ ''/rest/sitemaps'') = Failed err
      \<longrightarrow> getSitemaps request parse cfg = Rejected (JArr []))"
  by (simp add: getRestHover_def getSimpleModeState_def getSitemaps_def)

theorem rejected_request_sentinel_witness:
  "getRestHover (\<lambda>url. Failed (JObj [(''message'', JStr ''ECONNREFUSED'')])) (\<lambda>body. None)
     \<lparr>host = ''localhost'', port = 8080, username = None, password = None\<rparr> ''X''
     = Rejected (JBool False) \<and>
   getSimpleModeState (\<lambda>url. Failed (JObj [(''message'', JStr ''ECONNREFUSED'')])) (\<lambda>body. None)
     \<lparr>host = ''localhost'', port = 8080, username = None, password = None\<rparr>
     = Rejected (JArr []) \<and>
   getSitemaps (\<lambda>url. Failed (JObj [(''message'', JStr ''ECONNREFUSED'')])) (\<lambda>body. None)
     \<lparr>host = ''localhost'', port = 8080, username = None, password = None\<rparr>
     = Rejected (JArr [])"
  using rejected_request_sentinel
    [of "\<lambda>url. Failed (JObj [(''message'', JStr ''ECONNREFUSED'')])"
        "\<lparr>host = ''localhost'', port = 8080, username = None, password = None\<rparr>" "''X''"
        "JObj [(''message'', JStr ''ECONNREFUSED'')]" "\<lambda>body. None"]
  by simp

text \<open>
  The claim C9 as the specification states it fails: a rejected request is not mapped to a
  result. With a request that fails, none of the three promises is resolved with a value
  that says not available (\<open>null\<close>, \<open>false\<close> or the empty array): each is rejected, and none
  of them with \<open>null\<close>.
\<close>

theorem rejected_request_not_resolved:
  "getRestHover (\<lambda>url. Failed (JStr ''ETIMEDOUT'')) (\<lambda>body. None)
     \<lparr>host = ''openhab'', port = 80, username = None, password = None\<rparr> ''Light''
     = Rejected (JBool False) \<and>
   getRestHover (\<lambda>url. Failed (JStr ''ETIMEDOUT'')) (\<lambda>body. None)
     \<lparr>host = ''openhab'', port = 80, username = None, password = None\<rparr> ''Light''
     \<noteq> Resolved None \<and>
   getSimpleModeState (\<lambda>url. Failed (JStr ''ETIMEDOUT'')) (\<lambda>body. None)
     \<lparr>host = ''openhab'', port = 80, username = None, password = None\<rparr>
     = Rejected (JArr []) \<and>
   getSimpleModeState (\<lambda>url. Failed (JStr ''ETIMEDOUT'')) (\<lambda>body. None)
     \<lparr>host = ''openhab'', port = 80, username = None, password = None\<rparr>
     \<noteq> Resolved (JBool False) \<and>
   getSimpleModeState (\<lambda>url. Failed (JStr ''ETIMEDOUT'')) (\<lambda>body. None)
     \<lparr>host = ''openhab'', port = 80, username = None, password = None\<rparr>
     \<noteq> Resolved (JArr []) \<and>
   getSimpleModeState (\<lambda>url. Failed (JStr ''ETIMEDOUT'')) (\<lambda>body. None)
     \<lparr>host = ''openhab'', port = 80, username = None, password = None\<rparr>
     \<noteq> Resolved JNull \<and>
   getSitemaps (\<lambda>url. Failed (JStr ''ETIMEDOUT'')) (\<lambda>body. None)
     \<lparr>host = ''openhab'', port = 80, username = None, password = None\<rparr>
     = Rejected (JArr []) \<and>
   getSitemaps (\<lambda>url. Failed (JStr ''ETIMEDOUT'')) (\<lambda>body. None)
     \<lparr>host = ''openhab'', port = 80, username = None, password = None\<rparr>
     \<noteq> Resolved (JArr []) \<and>
   getSitemaps (\<lambda>url. Failed (JStr ''ETIMEDOUT'')) (\<lambda>body. None)
     \<lparr>host = ''openhab'', port = 80, username = None, password = None\<rparr>
     \<noteq> Resolved (JBool False) \<and>
   getSitemaps (\<lambda>url. Failed (JStr ''ETIMEDOUT'')) (\<lambda>body. None)
     \<lparr>host = ''openhab'', port = 80, username = None, password = None\<rparr>
     \<noteq> Resolved JNull"
  by (simp add: getRestHover_def getSimpleModeState_def getSitemaps_def)





end
